theory Spec2Isabelle
  imports
    Main
    "HOL-Library.Word"
    "HOL-Library.Char_ord"
    "HOL-Library.List_Lexorder"
    "HOL-Library.Multiset"
begin

section \<open>Data model\<close>

text \<open>
  A shallow embedding of \<^verbatim>\<open>webserv.py\<close>. Strings are \<^typ>\<open>string\<close>: one \<^typ>\<open>char\<close>
  per code point below 256, which is what a request header or URL component holds once it
  has been decoded as Latin-1. Python's \<^verbatim>\<open>int\<close> is \<^typ>\<open>int\<close>; the
  conversions between integers and strings have the interpreter's default limit of 4300
  digits, beyond which they raise ValueError.
\<close>

type_synonym byte = "8 word"
type_synonym bytes = "byte list"

text \<open>
  What a handler raises: \<^verbatim>\<open>HTTPException(status_code, detail)\<close>, with no detail where
  the source gives none, or any other Python exception that no \<^verbatim>\<open>except\<close> of the
  source catches (the framework answers it with status 500).
\<close>

datatype error =
    HTTPException nat "string option"
  | PyException string

text \<open>
  The part of the file system that the handlers look at. \<open>realpath\<close> is
  \<^verbatim>\<open>Path.resolve()\<close> on the string of a path (\<open>None\<close>: it raised); \<open>lookup\<close>
  tells what is stored under a canonical path: nothing, a regular file with its bytes, a
  directory, or something else (a device, a socket). \<open>iterdir\<close> gives the children of a
  directory in the order in which the operating system hands them out; of each child
  it tells the name, \<^verbatim>\<open>is_dir()\<close>, and the \<^verbatim>\<open>st_size\<close> and the whole seconds of
  \<^verbatim>\<open>st_mtime\<close> of \<^verbatim>\<open>stat()\<close> (\<open>None\<close>: \<^verbatim>\<open>stat\<close> raises, as on a dangling link).
\<close>

datatype node = RegularFile bytes | Directory | Special

record dir_child =
  child_name :: string
  child_is_dir :: bool
  child_stat :: "(int \<times> int) option"

record filesystem =
  realpath :: "string \<Rightarrow> string option"
  lookup :: "string \<Rightarrow> node option"
  iterdir :: "string \<Rightarrow> dir_child list"

definition exists_path :: "filesystem \<Rightarrow> string \<Rightarrow> bool" where
  "exists_path fs p = (lookup fs p \<noteq> None)"

definition is_file :: "filesystem \<Rightarrow> string \<Rightarrow> bool" where
  "is_file fs p = (case lookup fs p of Some (RegularFile _) \<Rightarrow> True | _ \<Rightarrow> False)"

section \<open>Strings and integers of Python\<close>

text \<open>\<^verbatim>\<open>s.startswith(p)\<close>.\<close>

definition startswith :: "string \<Rightarrow> string \<Rightarrow> bool" where
  "startswith s p = (take (length p) s = p)"

text \<open>\<^verbatim>\<open>xs[i]\<close>: a negative index counts from the end; \<open>None\<close> is IndexError.\<close>

definition py_index :: "'a list \<Rightarrow> int \<Rightarrow> 'a option" where
  "py_index xs i =
     (let n = int (length xs); j = (if i < 0 then n + i else i)
      in if 0 \<le> j \<and> j < n then Some (xs ! nat j) else None)"

text \<open>\<^verbatim>\<open>s.split(c)\<close> for a separator of one character: never an empty list.\<close>

fun split_on :: "char \<Rightarrow> string \<Rightarrow> string list" where
  "split_on c [] = [[]]"
| "split_on c (x # xs) =
     (if x = c then [] # split_on c xs
      else (case split_on c xs of
              [] \<Rightarrow> [[x]]
            | w # ws \<Rightarrow> (x # w) # ws))"

text \<open>\<^verbatim>\<open>str(n)\<close> and the \<^verbatim>\<open>{n}\<close> of an f-string, for an integer: decimal, with a minus sign.\<close>

definition digit_char :: "nat \<Rightarrow> char" where
  "digit_char d = ''0123456789'' ! d"

fun str_nat :: "nat \<Rightarrow> string" where
  "str_nat n = (if n < 10 then [digit_char n] else str_nat (n div 10) @ [digit_char (n mod 10)])"

declare str_nat.simps [simp del]

definition str_int :: "int \<Rightarrow> string" where
  "str_int i = (if i < 0 then CHR ''-'' # str_nat (nat (- i)) else str_nat (nat i))"

text \<open>
  \<^verbatim>\<open>sys.get_int_max_str_digits()\<close> as the interpreter starts: \<^verbatim>\<open>str(n)\<close> and an
  f-string raise ValueError for an integer of more digits (the sign is not counted).
  \<open>None\<close> is that exception.
\<close>

definition int_max_str_digits :: nat where
  "int_max_str_digits = 4300"

definition py_str :: "int \<Rightarrow> string option" where
  "py_str i =
     (if length (str_nat (nat \<bar>i\<bar>)) > int_max_str_digits then None else Some (str_int i))"

text \<open>
  \<^verbatim>\<open>int(s)\<close> for a string: white space around the number is dropped, one sign may come
  first, then decimal digits, where single underscores may stand between two digits.
  More than \<open>int_max_str_digits\<close> digits, leading zeros counted and underscores not, are
  refused. \<open>None\<close> is ValueError.
\<close>

definition is_space :: "char \<Rightarrow> bool" where
  "is_space c = (of_char c \<in> {9, 10, 11, 12, 13, 32, 133, 160 :: nat})"

definition is_digit :: "char \<Rightarrow> bool" where
  "is_digit c = (CHR ''0'' \<le> c \<and> c \<le> CHR ''9'')"

definition digit_val :: "char \<Rightarrow> int" where
  "digit_val c = int (of_char c) - 48"

definition strip :: "string \<Rightarrow> string" where
  "strip s = rev (dropWhile is_space (rev (dropWhile is_space s)))"

text \<open>Digits with underscores: \<open>prev_digit\<close> tells whether the character before was a digit.\<close>

fun digits_ok :: "bool \<Rightarrow> string \<Rightarrow> bool" where
  "digits_ok prev_digit [] = prev_digit"
| "digits_ok prev_digit (c # cs) =
     (if is_digit c then digits_ok True cs
      else if c = CHR ''_'' then prev_digit \<and> digits_ok False cs
      else False)"

definition digits_value :: "string \<Rightarrow> int" where
  "digits_value s = foldl (\<lambda>acc c. 10 * acc + digit_val c) 0 (filter is_digit s)"

definition py_int :: "string \<Rightarrow> int option" where
  "py_int s =
     (let t = strip s;
          neg = (t \<noteq> [] \<and> hd t = CHR ''-'');
          u = (if t \<noteq> [] \<and> (hd t = CHR ''-'' \<or> hd t = CHR ''+'') then tl t else t)
      in if \<not> digits_ok False u then None
         else if length (filter is_digit u) > int_max_str_digits then None
         else Some (if neg then - digits_value u else digits_value u))"

section \<open>Path resolution\<close>

text \<open>
  \<^verbatim>\<open>Path(root) / rel_path\<close>, as the string handed to \<^verbatim>\<open>resolve\<close>: an absolute
  \<open>rel_path\<close> replaces the root. Doubled separators and dots are left to \<open>realpath\<close>.
\<close>

definition path_join :: "string \<Rightarrow> string \<Rightarrow> string" where
  "path_join root rel_path =
     (if rel_path \<noteq> [] \<and> hd rel_path = CHR ''/'' then rel_path
      else root @ ''/'' @ rel_path)"

text \<open>
  \<^verbatim>\<open>normalize_root_and_rel\<close> (lines 68 to 77). The \<^verbatim>\<open>try\<close> covers the indexing of
  \<^verbatim>\<open>ROOT_DIRS\<close> only; the containment test is \<^verbatim>\<open>str.startswith\<close> on the two
  canonical strings.
\<close>

definition normalize_root_and_rel ::
  "filesystem \<Rightarrow> string list \<Rightarrow> int \<Rightarrow> string \<Rightarrow> error + string" where
  "normalize_root_and_rel fs ROOT_DIRS root_index rel_path =
     (case py_index ROOT_DIRS root_index of
        None \<Rightarrow> Inl (HTTPException 400 (Some ''invalid root index''))
      | Some root \<Rightarrow>
          (case realpath fs (path_join root rel_path) of
             None \<Rightarrow> Inl (PyException ''resolve'')
           | Some candidate \<Rightarrow>
               (case realpath fs root of
                  None \<Rightarrow> Inl (PyException ''resolve'')
                | Some root_resolved \<Rightarrow>
                    if \<not> startswith candidate root_resolved
                    then Inl (HTTPException 400 (Some ''path outside root''))
                    else Inr candidate)))"

text \<open>
  \<^verbatim>\<open>Path.resolve()\<close> on a file system without symbolic links, for an absolute path:
  empty components and \<^verbatim>\<open>.\<close> vanish, \<^verbatim>\<open>..\<close> removes the component before it (none
  at the top), and a NUL character makes the call raise.
\<close>

fun resolve_parts :: "string list \<Rightarrow> string list \<Rightarrow> string list" where
  "resolve_parts acc [] = rev acc"
| "resolve_parts acc (c # cs) =
     (if c = [] \<or> c = ''.'' then resolve_parts acc cs
      else if c = ''..'' then resolve_parts (tl acc) cs
      else resolve_parts (c # acc) cs)"

fun join_parts :: "string list \<Rightarrow> string" where
  "join_parts [] = []"
| "join_parts [c] = c"
| "join_parts (c # cs) = c @ ''/'' @ join_parts cs"

definition resolve_nolinks :: "string \<Rightarrow> string option" where
  "resolve_nolinks s =
     (if CHR 0x00 \<in> set s then None
      else Some (CHR ''/'' # join_parts (resolve_parts [] (split_on CHR ''/'' s))))"

section \<open>Range streaming\<close>

text \<open>
  \<^verbatim>\<open>f.read(n)\<close> on a binary file positioned at \<open>pos\<close>: at most \<open>n\<close> bytes, all the
  rest of the file when \<open>n\<close> is \<open>-1\<close>, nothing at or after the end; a length below
  \<open>-1\<close> raises ValueError, which is \<open>None\<close>.
\<close>

definition file_read :: "bytes \<Rightarrow> nat \<Rightarrow> int \<Rightarrow> bytes option" where
  "file_read data pos n =
     (if n < - 1 then None
      else if n < 0 then Some (drop pos data)
      else Some (take (nat n) (drop pos data)))"

text \<open>
  The \<^verbatim>\<open>while\<close> loop of \<^verbatim>\<open>iter_file_range\<close> (lines 186 to 191): the chunks it yields.
  \<^verbatim>\<open>read\<close> can raise in the first round only, before any chunk.
\<close>

function read_loop :: "bytes \<Rightarrow> nat \<Rightarrow> int \<Rightarrow> int \<Rightarrow> error + bytes list" where
  "read_loop data pos to_read chunk_size =
     (if to_read > 0 then
        (case file_read data pos (min chunk_size to_read) of
           None \<Rightarrow> Inl (PyException ''read'')
         | Some rd \<Rightarrow>
             if rd = [] then Inr []
             else (case read_loop data (pos + length rd) (to_read - int (length rd)) chunk_size of
                     Inl e \<Rightarrow> Inl e
                   | Inr rest \<Rightarrow> Inr (rd # rest)))
      else Inr [])"
  by pat_completeness auto
termination
  by (relation "measure (\<lambda>(data, pos, to_read, chunk_size). nat to_read)") auto

declare read_loop.simps [simp del]

text \<open>
  \<^verbatim>\<open>iter_file_range\<close> (lines 179 to 191), run to its end. The size is that of the file
  under \<open>path\<close>; \<^verbatim>\<open>open\<close> fails on anything but a regular file, and \<^verbatim>\<open>seek\<close> on a
  negative offset. An offset at or beyond the end of the file is read as the end of the
  file, where \<^verbatim>\<open>read\<close> gives nothing.
\<close>

definition iter_file_range ::
  "filesystem \<Rightarrow> string \<Rightarrow> int \<Rightarrow> int option \<Rightarrow> int \<Rightarrow> error + bytes list" where
  "iter_file_range fs path start end_opt chunk_size =
     (case lookup fs path of
        Some (RegularFile data) \<Rightarrow>
          (let size' = int (length data);
               end' = (case end_opt of
                         None \<Rightarrow> size' - 1
                       | Some e \<Rightarrow> if e \<ge> size' then size' - 1 else e)
           in if start < 0 then Inl (PyException ''seek'')
              else read_loop data (nat start) (end' - start + 1) chunk_size)
      | _ \<Rightarrow> Inl (PyException ''open''))"

text \<open>The default \<^verbatim>\<open>chunk_size\<close> of \<^verbatim>\<open>iter_file_range\<close>: \<^verbatim>\<open>1 << 20\<close>.\<close>

definition default_chunk_size :: int where
  "default_chunk_size = 2 ^ 20"

text \<open>
  A response: \<^verbatim>\<open>Response\<close> carries its content whole, \<^verbatim>\<open>StreamingResponse\<close> the
  chunks of its iterator. \<open>headers\<close> are the ones the handler passes, in the order of the
  dictionary.
\<close>

datatype body = Content bytes | Stream "bytes list"

record response =
  status_code :: nat
  headers :: "(string \<times> string) list"
  media_type :: "string option"
  body :: body

text \<open>
  The parsing of the \<^verbatim>\<open>Range\<close> header in \<^verbatim>\<open>media\<close> (lines 205 to 212): both
  \<^verbatim>\<open>split\<close>s must give two pieces, the unit is not looked at, and every exception
  gives the whole file.
\<close>

definition parse_range :: "string \<Rightarrow> int \<Rightarrow> int \<times> int" where
  "parse_range range_header size' =
     (case split_on CHR ''='' range_header of
        [units, rng] \<Rightarrow>
          (case split_on CHR ''-'' rng of
             [start_s, end_s] \<Rightarrow>
               (case (if start_s \<noteq> [] then py_int start_s else Some 0) of
                  None \<Rightarrow> (0, size' - 1)
                | Some start \<Rightarrow>
                    (case (if end_s \<noteq> [] then py_int end_s else Some (size' - 1)) of
                       None \<Rightarrow> (0, size' - 1)
                     | Some end' \<Rightarrow> (start, end')))
           | _ \<Rightarrow> (0, size' - 1))
      | _ \<Rightarrow> (0, size' - 1))"

text \<open>\<^verbatim>\<open>mimetypes.guess_type(str(p))[0] or 'application/octet-stream'\<close>.\<close>

definition mime_or_default :: "string option \<Rightarrow> string" where
  "mime_or_default g =
     (case g of None \<Rightarrow> ''application/octet-stream''
      | Some m \<Rightarrow> if m = [] then ''application/octet-stream'' else m)"

text \<open>
  The dictionary \<^verbatim>\<open>headers\<close> of a partial response (lines 215 to 219): the f-string
  and \<^verbatim>\<open>str\<close> format the numbers as they were parsed. \<open>None\<close> is the ValueError of a
  number of too many digits.
\<close>

definition range_headers :: "int \<Rightarrow> int \<Rightarrow> int \<Rightarrow> (string \<times> string) list option" where
  "range_headers start end' size' =
     (case py_str start of
        None \<Rightarrow> None
      | Some start_str \<Rightarrow>
          (case py_str end' of
             None \<Rightarrow> None
           | Some end_str \<Rightarrow>
               (case py_str size' of
                  None \<Rightarrow> None
                | Some size_str \<Rightarrow>
                    (case py_str (end' - start + 1) of
                       None \<Rightarrow> None
                     | Some length_str \<Rightarrow>
                         Some [(''Content-Range'',
                                  ''bytes '' @ start_str @ ''-'' @ end_str @ ''/'' @ size_str),
                               (''Accept-Ranges'', ''bytes''),
                               (''Content-Length'', length_str)]))))"

text \<open>
  \<^verbatim>\<open>media\<close> (lines 194 to 225). \<open>guess_type\<close> is the table of \<^verbatim>\<open>mimetypes\<close>;
  \<open>range_header\<close> is \<^verbatim>\<open>request.headers.get('range')\<close>. An exception of the body's
  iterator is reported as the handler's.
\<close>

definition media ::
  "filesystem \<Rightarrow> (string \<Rightarrow> string option) \<Rightarrow> string list \<Rightarrow> int \<Rightarrow> string
     \<Rightarrow> string option \<Rightarrow> error + response" where
  "media fs guess_type ROOT_DIRS root_index full_path range_header =
     (case normalize_root_and_rel fs ROOT_DIRS root_index full_path of
        Inl e \<Rightarrow> Inl e
      | Inr p \<Rightarrow>
          (case lookup fs p of
             Some (RegularFile data) \<Rightarrow>
               (let size' = int (length data) in
                if range_header \<noteq> None \<and> range_header \<noteq> Some [] then
                  (let (start, end') = parse_range (the range_header) size' in
                   if start \<ge> size' then
                     Inr \<lparr>status_code = 416, headers = [], media_type = None,
                          body = Content []\<rparr>
                   else
                     (case range_headers start end' size' of
                        None \<Rightarrow> Inl (PyException ''str'')
                      | Some range_hs \<Rightarrow>
                          (case iter_file_range fs p start (Some end') default_chunk_size of
                             Inl e \<Rightarrow> Inl e
                           | Inr chunks \<Rightarrow>
                               Inr \<lparr>status_code = 206,
                                    headers = range_hs,
                                    media_type = Some (mime_or_default (guess_type p)),
                                    body = Stream chunks\<rparr>)))
                else
                  (case iter_file_range fs p 0 (Some (size' - 1)) default_chunk_size of
                     Inl e \<Rightarrow> Inl e
                   | Inr chunks \<Rightarrow>
                       Inr \<lparr>status_code = 200,
                            headers = [(''Accept-Ranges'', ''bytes'')],
                            media_type = Some (mime_or_default (guess_type p)),
                            body = Stream chunks\<rparr>))
           | _ \<Rightarrow> Inl (HTTPException 404 None)))"

section \<open>Thumbnails\<close>

text \<open>
  The libraries and the subprocess that \<^verbatim>\<open>api_thumb\<close> calls, as functions of what they
  are given; \<open>None\<close> is an exception.
  \<^item> \<open>magic_from_file\<close>: \<^verbatim>\<open>magic.from_file(str(p), mime=True)\<close>;
  \<^item> \<open>image_thumbnail\<close>: lines 141 to 145, from \<^verbatim>\<open>Image.open(p)\<close> to the JPEG bytes;
  \<^item> \<open>ffmpeg_frame\<close>: lines 152 to 157, the standard output of the \<^verbatim>\<open>ffmpeg\<close> process;
  \<^item> \<open>frame_to_jpeg\<close>: lines 160 to 164, from the bytes of the frame to the JPEG bytes;
  \<^item> \<open>placeholder\<close>: lines 170 to 173, the grey JPEG of the thumbnail size.
\<close>

record collaborators =
  magic_from_file :: "string \<Rightarrow> string option"
  image_thumbnail :: "string \<Rightarrow> bytes option"
  ffmpeg_frame :: "string \<Rightarrow> bytes option"
  frame_to_jpeg :: "bytes \<Rightarrow> bytes option"
  placeholder :: bytes

text \<open>The work a call does, in the order it is done.\<close>

datatype event =
    Sniff string
  | DecodeImage string
  | Subprocess string
  | DecodeFrame bytes
  | MakePlaceholder

text \<open>
  The key of the cache: \<^verbatim>\<open>f"{root_index}:{path}"\<close>. \<open>None\<close> is the ValueError of an
  index of too many digits.
\<close>

definition cache_key :: "int \<Rightarrow> string \<Rightarrow> string option" where
  "cache_key root_index path =
     (case py_str root_index of
        None \<Rightarrow> None
      | Some index_str \<Rightarrow> Some (index_str @ '':'' @ path))"

text \<open>
  Lines 135 to 166: the bytes of the thumbnail (\<open>None\<close> where \<^verbatim>\<open>data\<close> stays
  \<^verbatim>\<open>None\<close>) and the work done, for a path that exists and a MIME type already sniffed.
\<close>

definition make_thumb ::
  "collaborators \<Rightarrow> bool \<Rightarrow> string option \<Rightarrow> string \<Rightarrow> bytes option \<times> event list" where
  "make_thumb env p_is_file mime p =
     (if p_is_file \<and> mime \<noteq> None \<and> mime \<noteq> Some [] \<and> startswith (the mime) ''image'' then
        (image_thumbnail env p, [DecodeImage p])
      else
        (case ffmpeg_frame env p of
           None \<Rightarrow> (None, [Subprocess p])
         | Some out \<Rightarrow>
             if out \<noteq> [] then (frame_to_jpeg env out, [Subprocess p, DecodeFrame out])
             else (None, [Subprocess p])))"

text \<open>
  \<^verbatim>\<open>api_thumb\<close> (lines 124 to 176): the outcome, the cache afterwards and the work done.
  The outcome is the content of the response, whose media type is always
  \<^verbatim>\<open>image/jpeg\<close>.
\<close>

definition api_thumb ::
  "collaborators \<Rightarrow> filesystem \<Rightarrow> string list \<Rightarrow> (string \<rightharpoonup> bytes) \<Rightarrow> int \<Rightarrow> string
     \<Rightarrow> (error + bytes) \<times> (string \<rightharpoonup> bytes) \<times> event list" where
  "api_thumb env fs ROOT_DIRS thumb_cache root_index path =
     (case cache_key root_index path of
        None \<Rightarrow> (Inl (PyException ''str''), thumb_cache, [])
      | Some key \<Rightarrow>
          (case thumb_cache key of
             Some cached \<Rightarrow> (Inr cached, thumb_cache, [])
           | None \<Rightarrow>
               (case normalize_root_and_rel fs ROOT_DIRS root_index path of
                  Inl e \<Rightarrow> (Inl e, thumb_cache, [])
                | Inr p \<Rightarrow>
                    if \<not> exists_path fs p then
                      (Inl (HTTPException 404 None), thumb_cache, [])
                    else if is_file fs p \<and> magic_from_file env p = None then
                      (Inl (PyException ''magic''), thumb_cache, [Sniff p])
                    else
                      (let mime = (if is_file fs p then magic_from_file env p else None);
                           sniffed = (if is_file fs p then [Sniff p] else []);
                           (data, work) = make_thumb env (is_file fs p) mime p
                       in if data = None \<or> data = Some [] then
                            (Inr (placeholder env), thumb_cache(key \<mapsto> placeholder env),
                             sniffed @ work @ [MakePlaceholder])
                          else
                            (Inr (the data), thumb_cache(key \<mapsto> the data),
                             sniffed @ work)))))"

section \<open>Directory listing\<close>

text \<open>One dictionary of the list that \<^verbatim>\<open>list_dir\<close> returns (lines 95 to 101).\<close>

record entry =
  name :: string
  is_dir :: bool
  size_bytes :: int
  mtime :: int
  rel_path :: string

text \<open>\<^verbatim>\<open>str.lower()\<close> on the code points below 256.\<close>

definition lower_char :: "char \<Rightarrow> char" where
  "lower_char c =
     (let n = (of_char c :: nat)
      in if (65 \<le> n \<and> n \<le> 90) \<or> (192 \<le> n \<and> n \<le> 222 \<and> n \<noteq> 215) then char_of (n + 32)
         else c)"

definition lower :: "string \<Rightarrow> string" where
  "lower s = map lower_char s"

text \<open>\<^verbatim>\<open>t in s\<close> for two strings: \<open>t\<close> stands somewhere in \<open>s\<close>.\<close>

fun contains :: "string \<Rightarrow> string \<Rightarrow> bool" where
  "contains [] t = (t = [])"
| "contains (c # cs) t = (startswith (c # cs) t \<or> contains cs t)"

text \<open>\<^verbatim>\<open>os.path.join(a, b)\<close> and \<^verbatim>\<open>s.lstrip('/')\<close>.\<close>

definition os_path_join :: "string \<Rightarrow> string \<Rightarrow> string" where
  "os_path_join a b =
     (if b \<noteq> [] \<and> hd b = CHR ''/'' then b
      else if a = [] \<or> last a = CHR ''/'' then a @ b
      else a @ ''/'' @ b)"

definition lstrip_slash :: "string \<Rightarrow> string" where
  "lstrip_slash s = dropWhile (\<lambda>c. c = CHR ''/'') s"

text \<open>
  The loop of \<^verbatim>\<open>list_dir\<close> (lines 88 to 102) over the children \<open>cs\<close> of the directory
  as \<^verbatim>\<open>iterdir\<close> gives them. \<^verbatim>\<open>sorted\<close> puts the paths of the children, which differ in
  their last component only, into the order of their names. \<^verbatim>\<open>stat\<close> is called on every
  child, before the search string is looked at, so one child whose \<^verbatim>\<open>stat\<close> raises
  makes the call raise.
\<close>

definition keeps :: "string option \<Rightarrow> dir_child \<Rightarrow> bool" where
  "keeps q c =
     (case q of
        None \<Rightarrow> True
      | Some s \<Rightarrow> s = [] \<or> contains (lower (child_name c)) (lower s))"

definition make_entry :: "string \<Rightarrow> dir_child \<Rightarrow> entry" where
  "make_entry rel c =
     \<lparr>name = child_name c,
      is_dir = child_is_dir c,
      size_bytes = fst (the (child_stat c)),
      mtime = snd (the (child_stat c)),
      rel_path = lstrip_slash (os_path_join rel (child_name c))\<rparr>"

definition list_entries :: "string \<Rightarrow> string option \<Rightarrow> dir_child list \<Rightarrow> error + entry list" where
  "list_entries rel q cs =
     (if list_all (\<lambda>c. child_stat c \<noteq> None) cs
      then Inr (map (make_entry rel) (filter (keeps q) (sort_key child_name cs)))
      else Inl (PyException ''stat''))"

text \<open>
  \<^verbatim>\<open>list_dir\<close> (lines 80 to 102). \<^verbatim>\<open>iterdir\<close> raises on what is neither a regular
  file nor a directory.
\<close>

definition list_dir ::
  "filesystem \<Rightarrow> string list \<Rightarrow> int \<Rightarrow> string \<Rightarrow> string option \<Rightarrow> error + entry list" where
  "list_dir fs ROOT_DIRS root_index rel q =
     (case normalize_root_and_rel fs ROOT_DIRS root_index rel of
        Inl e \<Rightarrow> Inl e
      | Inr base \<Rightarrow>
          if \<not> exists_path fs base then Inl (HTTPException 404 (Some ''not found''))
          else if is_file fs base then Inl (HTTPException 400 (Some ''not a directory''))
          else if lookup fs base = Some Directory then list_entries rel q (iterdir fs base)
          else Inl (PyException ''iterdir''))"

text \<open>
  \<^verbatim>\<open>items.sort(key=k)\<close> is a stable sort into ascending order of the keys, which is
  \<^const>\<open>sort_key\<close>. With \<^verbatim>\<open>reverse=True\<close> the order is descending and items of equal
  keys still keep their order: the list is reversed, sorted, and reversed again.
\<close>

definition sort_reverse :: "('a \<Rightarrow> 'k::linorder) \<Rightarrow> 'a list \<Rightarrow> 'a list" where
  "sort_reverse k xs = rev (sort_key k (rev xs))"

text \<open>The \<^verbatim>\<open>if\<close> chain of \<^verbatim>\<open>api_list\<close> (lines 115 to 120) on the list of \<^verbatim>\<open>list_dir\<close>.\<close>

definition sort_items :: "string \<Rightarrow> entry list \<Rightarrow> entry list" where
  "sort_items sort' items =
     (if sort' = ''name'' then sort_key (\<lambda>x. lower (name x)) items
      else if sort' = ''date'' then sort_reverse mtime items
      else if sort' = ''size'' then sort_reverse size_bytes items
      else items)"

text \<open>
  \<^verbatim>\<open>api_list\<close> (lines 110 to 121). \<open>path\<close> and \<open>q\<close> are the query parameters \<^verbatim>\<open>p\<close>
  and \<^verbatim>\<open>q\<close>; \<open>sort_param\<close> is the query parameter \<^verbatim>\<open>sort\<close>, \<open>None\<close> when the
  request has none: \<^verbatim>\<open>Query('name')\<close> then gives \<^verbatim>\<open>'name'\<close>. The outcome is the list
  under \<^verbatim>\<open>"items"\<close>.
\<close>

definition api_list ::
  "filesystem \<Rightarrow> string list \<Rightarrow> int \<Rightarrow> string \<Rightarrow> string option \<Rightarrow> string option
     \<Rightarrow> error + entry list" where
  "api_list fs ROOT_DIRS root_index path q sort_param =
     (let sort' = (case sort_param of None \<Rightarrow> ''name'' | Some s \<Rightarrow> s) in
      case list_dir fs ROOT_DIRS root_index path q of
        Inl e \<Rightarrow> Inl e
      | Inr items \<Rightarrow> Inr (sort_items sort' items))"

section \<open>Example inputs\<close>

text \<open>A file of ten bytes under the only root, on a file system without symbolic links.\<close>

definition example_bytes :: bytes where
  "example_bytes = [10, 11, 12, 13, 14, 15, 16, 17, 18, 19]"

definition example_fs :: filesystem where
  "example_fs = \<lparr>realpath = resolve_nolinks,
                  lookup = [''/srv/a.mp4'' \<mapsto> RegularFile example_bytes],
                  iterdir = (\<lambda>p. [])\<rparr>"

text \<open>A file of a thousand bytes, as in the scenarios of the specification.\<close>

definition thousand_bytes :: bytes where
  "thousand_bytes = replicate 1000 0"

definition thousand_fs :: filesystem where
  "thousand_fs = \<lparr>realpath = resolve_nolinks,
                   lookup = [''/srv/film.mp4'' \<mapsto> RegularFile thousand_bytes],
                   iterdir = (\<lambda>p. [])\<rparr>"

definition no_guess :: "string \<Rightarrow> string option" where
  "no_guess p = None"

text \<open>
  Two sibling directories whose names share a prefix, and a root list of two entries.
\<close>

definition sibling_fs :: filesystem where
  "sibling_fs = \<lparr>realpath = resolve_nolinks,
                  lookup = [''/root'' \<mapsto> Directory, ''/root2'' \<mapsto> Directory,
                            ''/root2/secret.jpg'' \<mapsto> RegularFile [255, 216]],
                  iterdir = (\<lambda>p. [])\<rparr>"

definition two_roots :: "string list" where
  "two_roots = [''/srv/photos'', ''/srv/films'']"

text \<open>
  Collaborators for a film: the sniffer says \<^verbatim>\<open>video/mp4\<close>, the subprocess gives a
  frame, and the frame is encoded.
\<close>

definition film_env :: collaborators where
  "film_env = \<lparr>magic_from_file = (\<lambda>p. Some ''video/mp4''),
                image_thumbnail = (\<lambda>p. None),
                ffmpeg_frame = (\<lambda>p. Some [1, 2, 3]),
                frame_to_jpeg = (\<lambda>out. Some [255, 216, 255]),
                placeholder = [255, 216, 0]\<rparr>"

definition empty_cache :: "string \<rightharpoonup> bytes" where
  "empty_cache = Map.empty"

text \<open>
  A directory of four children, which the operating system hands out in one order or
  in another.
\<close>

definition album :: "dir_child list" where
  "album =
     [\<lparr>child_name = ''Beta.jpg'', child_is_dir = False, child_stat = Some (300, 50)\<rparr>,
      \<lparr>child_name = ''Alpha.jpg'', child_is_dir = False, child_stat = Some (100, 70)\<rparr>,
      \<lparr>child_name = ''clips'', child_is_dir = True, child_stat = Some (4096, 50)\<rparr>,
      \<lparr>child_name = ''alpha.png'', child_is_dir = False, child_stat = Some (300, 60)\<rparr>]"

definition e_alpha_jpg :: entry where
  "e_alpha_jpg = \<lparr>name = ''Alpha.jpg'', is_dir = False, size_bytes = 100, mtime = 70,
                   rel_path = ''Alpha.jpg''\<rparr>"

definition e_alpha_png :: entry where
  "e_alpha_png = \<lparr>name = ''alpha.png'', is_dir = False, size_bytes = 300, mtime = 60,
                   rel_path = ''alpha.png''\<rparr>"

definition e_beta_jpg :: entry where
  "e_beta_jpg = \<lparr>name = ''Beta.jpg'', is_dir = False, size_bytes = 300, mtime = 50,
                  rel_path = ''Beta.jpg''\<rparr>"

definition e_clips :: entry where
  "e_clips = \<lparr>name = ''clips'', is_dir = True, size_bytes = 4096, mtime = 50,
               rel_path = ''clips''\<rparr>"

definition album_fs :: "dir_child list \<Rightarrow> filesystem" where
  "album_fs cs = \<lparr>realpath = resolve_nolinks,
                  lookup = [''/srv'' \<mapsto> Directory],
                  iterdir = (\<lambda>p. if p = ''/srv'' then cs else [])\<rparr>"

section \<open>The chunks of a range\<close>

lemma take_take_drop:
  "a \<le> t \<Longrightarrow> take a xs @ take (t - length (take a xs)) (drop (length (take a xs)) xs) = take t xs"
proof -
  assume le: "a \<le> t"
  let ?k = "length (take a xs)"
  have k: "?k \<le> t" using le by simp
  have "take t xs = take (?k + (t - ?k)) xs" using k by simp
  also have "\<dots> = take ?k xs @ take (t - ?k) (drop ?k xs)" by (rule take_add)
  also have "take ?k xs = take a xs" by (simp add: min_def)
  finally show ?thesis by simp
qed

lemma read_loop_positive:
  "0 < chunk_size \<Longrightarrow>
     \<exists>chunks. read_loop data pos to_read chunk_size = Inr chunks
       \<and> concat chunks = take (nat to_read) (drop pos data)
       \<and> (\<forall>c \<in> set chunks. c \<noteq> [] \<and> int (length c) \<le> chunk_size)"
proof (induction data pos to_read chunk_size rule: read_loop.induct)
  case (1 data pos to_read chunk_size)
  show ?case
  proof (cases "to_read > 0")
    case False
    then show ?thesis by (simp add: read_loop.simps)
  next
    case pos_to_read: True
    let ?n = "min chunk_size to_read"
    let ?rd = "take (nat ?n) (drop pos data)"
    have rd: "file_read data pos ?n = Some ?rd"
      using pos_to_read "1.prems" by (auto simp: file_read_def)
    show ?thesis
    proof (cases "?rd = []")
      case True
      then have "drop pos data = []"
        using pos_to_read "1.prems" by (cases "drop pos data") auto
      then show ?thesis
        using pos_to_read rd by (simp add: read_loop.simps [of data pos to_read])
    next
      case False
      obtain rest where
        run: "read_loop data (pos + length ?rd) (to_read - int (length ?rd)) chunk_size
                = Inr rest"
        and span: "concat rest
                     = take (nat (to_read - int (length ?rd))) (drop (pos + length ?rd) data)"
        and bound: "\<forall>c \<in> set rest. c \<noteq> [] \<and> int (length c) \<le> chunk_size"
        using "1.IH" [OF pos_to_read rd False "1.prems"] by blast
      have loop: "read_loop data pos to_read chunk_size = Inr (?rd # rest)"
        using pos_to_read rd False run by (simp add: read_loop.simps [of data pos to_read])
      have le: "nat ?n \<le> nat to_read" by simp
      have "concat (?rd # rest)
              = ?rd @ take (nat (to_read - int (length ?rd))) (drop (pos + length ?rd) data)"
        using span by simp
      also have "\<dots> = ?rd @ take (nat to_read - length ?rd) (drop (length ?rd) (drop pos data))"
      proof -
        have "nat (to_read - int k) = nat to_read - k" for k
          using pos_to_read by arith
        then show ?thesis by (simp add: add.commute)
      qed
      also have "\<dots> = take (nat to_read) (drop pos data)"
        using le by (rule take_take_drop)
      finally have whole: "concat (?rd # rest) = take (nat to_read) (drop pos data)" .
      have first: "int (length ?rd) \<le> chunk_size"
        using "1.prems" by simp
      have "\<forall>c \<in> set (?rd # rest). c \<noteq> [] \<and> int (length c) \<le> chunk_size"
        using False first bound by simp
      then show ?thesis using loop whole by blast
    qed
  qed
qed

section \<open>The numbers of a Range header\<close>

lemma split_on_nonempty: "split_on c s \<noteq> []"
  by (induction s) (auto split: list.splits)

lemma split_on_no_sep: "p \<in> set (split_on c s) \<Longrightarrow> c \<notin> set p"
proof (induction s arbitrary: p)
  case Nil
  then show ?case by simp
next
  case (Cons x xs)
  obtain w ws where ws: "split_on c xs = w # ws"
    using split_on_nonempty [of c xs] by (cases "split_on c xs") auto
  show ?case
  proof (cases "x = c")
    case True
    then show ?thesis using Cons by auto
  next
    case False
    then have "p = x # w \<or> p \<in> set ws" using Cons.prems ws by simp
    then show ?thesis using Cons.IH False ws by auto
  qed
qed

lemma digit_val_nonneg: "is_digit c \<Longrightarrow> 0 \<le> digit_val c"
  by (simp add: is_digit_def digit_val_def less_eq_char_def)

lemma foldl_digits_nonneg:
  "0 \<le> acc \<Longrightarrow> \<forall>c \<in> set ds. is_digit c \<Longrightarrow>
     0 \<le> foldl (\<lambda>acc c. 10 * acc + digit_val c) acc ds"
  by (induction ds arbitrary: acc) (auto simp: digit_val_nonneg)

lemma digits_value_nonneg: "0 \<le> digits_value s"
  unfolding digits_value_def by (rule foldl_digits_nonneg) auto

lemma set_strip: "set (strip s) \<subseteq> set s"
proof -
  have "set (strip s) \<subseteq> set (dropWhile is_space s)"
    unfolding strip_def using set_dropWhileD by fastforce
  also have "\<dots> \<subseteq> set s" using set_dropWhileD by fastforce
  finally show ?thesis .
qed

lemma py_int_nonneg:
  assumes "py_int s = Some v" and "CHR ''-'' \<notin> set s"
  shows "0 \<le> v"
proof -
  have "strip s = [] \<or> hd (strip s) \<noteq> CHR ''-''"
  proof (cases "strip s")
    case Nil
    then show ?thesis by simp
  next
    case (Cons c cs)
    then have "c \<in> set s" using set_strip [of s] by auto
    then show ?thesis using assms(2) Cons by auto
  qed
  then show ?thesis
    using assms(1) digits_value_nonneg
    by (auto simp: py_int_def Let_def split: if_splits)
qed

lemma parse_range_start_nonneg:
  assumes "parse_range range_header size' = (start, end')"
  shows "0 \<le> start"
proof (cases "\<exists>units rng start_s end_s.
                 split_on CHR ''='' range_header = [units, rng]
                 \<and> split_on CHR ''-'' rng = [start_s, end_s]
                 \<and> start_s \<noteq> [] \<and> py_int start_s = Some start")
  case True
  then obtain rng start_s end_s where
    "split_on CHR ''-'' rng = [start_s, end_s]" and parsed: "py_int start_s = Some start"
    by blast
  then have "start_s \<in> set (split_on CHR ''-'' rng)" by simp
  then have "CHR ''-'' \<notin> set start_s" by (rule split_on_no_sep)
  with parsed show ?thesis by (rule py_int_nonneg)
next
  case False
  then show ?thesis
    using assms
    by (auto simp: parse_range_def split: list.splits option.splits if_splits)
qed

lemma parse_range_end_lower:
  assumes "parse_range range_header size' = (start, end')" and "0 \<le> size'"
  shows "- 1 \<le> end'"
proof (cases "\<exists>units rng start_s end_s.
                 split_on CHR ''='' range_header = [units, rng]
                 \<and> split_on CHR ''-'' rng = [start_s, end_s]
                 \<and> end_s \<noteq> [] \<and> py_int end_s = Some end'")
  case True
  then obtain rng start_s end_s where
    "split_on CHR ''-'' rng = [start_s, end_s]" and parsed: "py_int end_s = Some end'"
    by blast
  then have "end_s \<in> set (split_on CHR ''-'' rng)" by simp
  then have "CHR ''-'' \<notin> set end_s" by (rule split_on_no_sep)
  with parsed have "0 \<le> end'" by (rule py_int_nonneg)
  then show ?thesis by simp
next
  case False
  then show ?thesis
    using assms
    by (auto simp: parse_range_def split: list.splits option.splits if_splits)
qed

text \<open>
  A number of more digits than the interpreter converts is not parsed, so that a header
  with such a number is answered like a header that is not understood: with the whole
  file.
\<close>

lemma filter_dropWhile_disjoint:
  "(\<And>x. Q x \<Longrightarrow> \<not> P x) \<Longrightarrow> filter P (dropWhile Q xs) = filter P xs"
  by (induction xs) auto

lemma space_no_digit: "is_space c \<Longrightarrow> \<not> is_digit c"
  by (auto simp: is_space_def is_digit_def less_eq_char_def)

lemma digits_of_strip: "filter is_digit (strip s) = filter is_digit s"
proof -
  have drop: "filter is_digit (dropWhile is_space xs) = filter is_digit xs" for xs
    by (rule filter_dropWhile_disjoint) (rule space_no_digit)
  have "filter is_digit (strip s)
          = rev (filter is_digit (dropWhile is_space (rev (dropWhile is_space s))))"
    by (simp only: strip_def rev_filter)
  also have "\<dots> = rev (filter is_digit (rev (dropWhile is_space s)))"
    by (simp only: drop)
  also have "\<dots> = filter is_digit (dropWhile is_space s)"
    by (simp only: rev_filter [symmetric] rev_rev_ident)
  also have "\<dots> = filter is_digit s"
    by (rule drop)
  finally show ?thesis .
qed

lemma py_int_digit_limit:
  assumes "int_max_str_digits < length (filter is_digit s)"
  shows "py_int s = None"
proof -
  let ?t = "strip s"
  let ?u = "if ?t \<noteq> [] \<and> (hd ?t = CHR ''-'' \<or> hd ?t = CHR ''+'') then tl ?t else ?t"
  have "filter is_digit ?u = filter is_digit ?t"
    by (cases ?t) (auto simp: is_digit_def less_eq_char_def)
  then have "int_max_str_digits < length (filter is_digit ?u)"
    using assms by (simp only: digits_of_strip)
  then show ?thesis by (simp add: py_int_def Let_def)
qed

lemma parse_range_digit_limit:
  assumes "split_on CHR ''='' range_header = [units, rng]"
      and "split_on CHR ''-'' rng = [start_s, end_s]"
      and "int_max_str_digits < length (filter is_digit start_s)
           \<or> int_max_str_digits < length (filter is_digit end_s)"
  shows "parse_range range_header size' = (0, size' - 1)"
proof -
  have "(start_s \<noteq> [] \<and> py_int start_s = None) \<or> (end_s \<noteq> [] \<and> py_int end_s = None)"
    using assms(3) py_int_digit_limit [of start_s] py_int_digit_limit [of end_s] by auto
  then show ?thesis
    using assms(1,2) by (auto simp: parse_range_def split: option.splits)
qed

section \<open>Integers of few digits\<close>

lemma length_str_nat: "0 < k \<Longrightarrow> n < 10 ^ k \<Longrightarrow> length (str_nat n) \<le> k"
proof (induction n arbitrary: k rule: str_nat.induct)
  case (1 n)
  show ?case
  proof (cases "n < 10")
    case True
    then show ?thesis using "1.prems" by (simp add: str_nat.simps [of n])
  next
    case False
    then obtain j where k: "k = Suc j"
      using "1.prems" by (cases k) auto
    have "0 < j"
    proof (rule ccontr)
      assume "\<not> 0 < j"
      then have "k = 1" using k by simp
      then show False using "1.prems" False by simp
    qed
    moreover have "n div 10 < 10 ^ j"
      using "1.prems"(2) k by (simp add: less_mult_imp_div_less mult.commute)
    ultimately have "length (str_nat (n div 10)) \<le> j"
      using "1.IH" [OF False] by simp
    then show ?thesis using False k by (simp add: str_nat.simps [of n])
  qed
qed

lemma py_str_small: "\<bar>i\<bar> < 2 ^ 63 \<Longrightarrow> py_str i = Some (str_int i)"
proof -
  assume small: "\<bar>i\<bar> < 2 ^ 63"
  have "nat \<bar>i\<bar> < 2 ^ 63" using small by (simp add: nat_less_iff)
  also have "(2::nat) ^ 63 < 10 ^ 19" by simp
  finally have "length (str_nat (nat \<bar>i\<bar>)) \<le> 19"
    by (intro length_str_nat) simp_all
  then show ?thesis by (simp add: py_str_def int_max_str_digits_def)
qed

lemma range_headers_small:
  assumes "\<bar>start\<bar> < 2 ^ 63" "\<bar>end'\<bar> < 2 ^ 63" "\<bar>size'\<bar> < 2 ^ 63"
      and "\<bar>end' - start + 1\<bar> < 2 ^ 63"
  shows "range_headers start end' size'
           = Some [(''Content-Range'',
                      ''bytes '' @ str_int start @ ''-'' @ str_int end' @ ''/'' @ str_int size'),
                   (''Accept-Ranges'', ''bytes''),
                   (''Content-Length'', str_int (end' - start + 1))]"
  using assms by (simp add: range_headers_def py_str_small)

section \<open>The responses of the streamer\<close>

text \<open>
  What \<^verbatim>\<open>media\<close> answers for a start inside the file, and without a \<^verbatim>\<open>Range\<close>
  header: the headers carry the end as it was parsed, the body stops at the end of the
  file.
\<close>

lemma media_partial_content:
  assumes resolved: "normalize_root_and_rel fs ROOT_DIRS root_index full_path = Inr p"
      and regular: "lookup fs p = Some (RegularFile data)"
      and present: "range_header \<noteq> []"
      and parsed: "parse_range range_header (int (length data)) = (start, end')"
      and inside: "start < int (length data)"
      and formatted: "range_headers start end' (int (length data)) = Some range_hs"
  shows "\<exists>chunks.
           media fs guess_type ROOT_DIRS root_index full_path (Some range_header)
             = Inr \<lparr>status_code = 206,
                    headers = range_hs,
                    media_type = Some (mime_or_default (guess_type p)),
                    body = Stream chunks\<rparr>
           \<and> concat chunks
               = take (nat (min end' (int (length data) - 1) - start + 1)) (drop (nat start) data)"
proof -
  let ?stop = "min end' (int (length data) - 1)"
  have nonneg: "0 \<le> start" using parsed by (rule parse_range_start_nonneg)
  obtain chunks where
    run: "read_loop data (nat start) (?stop - start + 1) default_chunk_size = Inr chunks"
    and span: "concat chunks = take (nat (?stop - start + 1)) (drop (nat start) data)"
    using read_loop_positive [of default_chunk_size data "nat start" "?stop - start + 1"]
    by (auto simp: default_chunk_size_def)
  have stop: "(if int (length data) \<le> end' then int (length data) - 1 else end') = ?stop"
    by (auto simp: min_def)
  have iter: "iter_file_range fs p start (Some end') default_chunk_size = Inr chunks"
    using regular nonneg run by (simp add: iter_file_range_def Let_def stop)
  have "media fs guess_type ROOT_DIRS root_index full_path (Some range_header)
             = Inr \<lparr>status_code = 206,
                    headers = range_hs,
                    media_type = Some (mime_or_default (guess_type p)),
                    body = Stream chunks\<rparr>"
    using resolved regular present parsed inside formatted iter
    by (simp add: media_def Let_def)
  then show ?thesis using span by blast
qed

lemma media_whole_file:
  assumes resolved: "normalize_root_and_rel fs ROOT_DIRS root_index full_path = Inr p"
      and regular: "lookup fs p = Some (RegularFile data)"
  shows "\<exists>chunks.
           media fs guess_type ROOT_DIRS root_index full_path None
             = Inr \<lparr>status_code = 200,
                    headers = [(''Accept-Ranges'', ''bytes'')],
                    media_type = Some (mime_or_default (guess_type p)),
                    body = Stream chunks\<rparr>
           \<and> concat chunks = data"
proof -
  obtain chunks where
    run: "read_loop data 0 (int (length data)) default_chunk_size = Inr chunks"
    and span: "concat chunks = take (nat (int (length data))) (drop 0 data)"
    using read_loop_positive [of default_chunk_size data 0 "int (length data)"]
    by (auto simp: default_chunk_size_def)
  have iter: "iter_file_range fs p 0 (Some (int (length data) - 1)) default_chunk_size
                = Inr chunks"
    using regular run by (simp add: iter_file_range_def)
  have "media fs guess_type ROOT_DIRS root_index full_path None
             = Inr \<lparr>status_code = 200,
                    headers = [(''Accept-Ranges'', ''bytes'')],
                    media_type = Some (mime_or_default (guess_type p)),
                    body = Stream chunks\<rparr>"
    using resolved regular iter by (simp add: media_def Let_def)
  then show ?thesis using span by auto
qed

section \<open>The key of the cache\<close>

text \<open>
  The decimal of an integer holds digits and a leading minus sign only and tells the
  integer, so that the key \<^verbatim>\<open>f"{root_index}:{path}"\<close> tells the index and the path:
  two requests share a key only when they are the same request.
\<close>

lemma digit_val_digit_char: "d < 10 \<Longrightarrow> digit_val (digit_char d) = int d"
proof -
  assume small: "d < 10"
  have table: "map digit_val ''0123456789'' = map int [0..<10]"
    by code_simp
  have "digit_val (digit_char d) = map digit_val ''0123456789'' ! d"
    using small by (simp only: digit_char_def) (rule nth_map [symmetric], simp)
  also have "\<dots> = map int [0..<10] ! d" by (simp only: table)
  also have "\<dots> = int d" using small by (simp del: upt_Suc)
  finally show ?thesis .
qed

lemma is_digit_digit_char: "d < 10 \<Longrightarrow> is_digit (digit_char d)"
proof -
  assume small: "d < 10"
  have "list_all is_digit ''0123456789''"
    by (simp add: is_digit_def less_eq_char_def)
  then have "\<forall>n < length ''0123456789''. is_digit (''0123456789'' ! n)"
    by (simp only: list_all_length)
  then show ?thesis using small by (simp add: digit_char_def)
qed

lemma str_nat_digits: "c \<in> set (str_nat n) \<Longrightarrow> is_digit c"
proof (induction n arbitrary: c rule: str_nat.induct)
  case (1 n)
  show ?case
  proof (cases "n < 10")
    case True
    then show ?thesis using "1.prems" by (simp add: str_nat.simps [of n] is_digit_digit_char)
  next
    case False
    then have "c \<in> set (str_nat (n div 10)) \<or> c = digit_char (n mod 10)"
      using "1.prems" by (auto simp: str_nat.simps [of n])
    then show ?thesis using "1.IH" [OF False] by (auto simp: is_digit_digit_char)
  qed
qed

lemma str_nat_value: "foldl (\<lambda>acc c. 10 * acc + digit_val c) 0 (str_nat n) = int n"
proof (induction n rule: str_nat.induct)
  case (1 n)
  show ?case
  proof (cases "n < 10")
    case True
    then show ?thesis by (simp add: str_nat.simps [of n] digit_val_digit_char)
  next
    case False
    then show ?thesis
      using "1.IH" [OF False] by (simp add: str_nat.simps [of n] digit_val_digit_char) presburger
  qed
qed

lemma str_nat_inj: "str_nat m = str_nat n \<Longrightarrow> m = n"
  by (metis str_nat_value of_nat_eq_iff)

lemma str_nat_nonempty: "str_nat n \<noteq> []"
  by (simp add: str_nat.simps [of n])

lemma str_nat_no_sign: "str_nat n \<noteq> CHR ''-'' # s"
proof
  assume eq: "str_nat n = CHR ''-'' # s"
  then have "CHR ''-'' \<in> set (str_nat n)" by simp
  then have "is_digit CHR ''-''" by (rule str_nat_digits)
  then show False by (simp add: is_digit_def less_eq_char_def)
qed

lemma str_int_inj: "str_int i = str_int j \<Longrightarrow> i = j"
proof -
  assume eq: "str_int i = str_int j"
  show ?thesis
  proof (cases "i < 0"; cases "j < 0")
    assume "i < 0" "j < 0"
    then have "nat (- i) = nat (- j)" using eq by (simp add: str_int_def str_nat_inj)
    then show ?thesis using \<open>i < 0\<close> \<open>j < 0\<close> by simp
  next
    assume "i < 0" "\<not> j < 0"
    then have "str_nat (nat j) = CHR ''-'' # str_nat (nat (- i))"
      using eq by (simp add: str_int_def)
    then show ?thesis using str_nat_no_sign by blast
  next
    assume "\<not> i < 0" "j < 0"
    then have "str_nat (nat i) = CHR ''-'' # str_nat (nat (- j))"
      using eq by (simp add: str_int_def)
    then show ?thesis using str_nat_no_sign by blast
  next
    assume "\<not> i < 0" "\<not> j < 0"
    then have "nat i = nat j" using eq by (simp add: str_int_def str_nat_inj)
    then show ?thesis using \<open>\<not> i < 0\<close> \<open>\<not> j < 0\<close> by simp
  qed
qed

lemma str_int_no_colon: "CHR '':'' \<notin> set (str_int i)"
proof -
  have "CHR '':'' \<notin> set (str_nat n)" for n
    using str_nat_digits [of "CHR '':''" n] by (auto simp: is_digit_def less_eq_char_def)
  then show ?thesis by (simp add: str_int_def)
qed

lemma cache_key_inj:
  assumes "cache_key i p = Some key" and "cache_key j q = Some key"
  shows "i = j \<and> p = q"
proof -
  have split: "takeWhile (\<lambda>c. c \<noteq> CHR '':'') (str_int k @ '':'' @ r) = str_int k" for k r
    using str_int_no_colon [of k] by (subst takeWhile_append2) auto
  have keys: "key = str_int i @ '':'' @ p" "key = str_int j @ '':'' @ q"
    using assms by (auto simp: cache_key_def py_str_def split: option.splits if_splits)
  then have "str_int i = str_int j"
    using split [of i p] split [of j q] by simp
  then have "i = j" by (rule str_int_inj)
  then show ?thesis using keys by simp
qed

section \<open>What path resolution rejects and accepts\<close>



lemma normalize_root_and_rel_prefix:
  assumes "normalize_root_and_rel fs ROOT_DIRS root_index rel = Inr candidate"
  shows "\<exists>root root_resolved. py_index ROOT_DIRS root_index = Some root
           \<and> realpath fs root = Some root_resolved
           \<and> realpath fs (path_join root rel) = Some candidate
           \<and> startswith candidate root_resolved"
  using assms
  by (auto simp: normalize_root_and_rel_def split: option.splits if_splits)

section \<open>Sorting a listing\<close>

lemma sort_key_mset_unique:
  fixes f :: "'a \<Rightarrow> 'k::linorder"
  assumes same: "mset xs = mset ys" and keys: "distinct (map f xs)"
  shows "sort_key f xs = sort_key f ys"
proof -
  have sets: "set xs = set ys" using same by (rule mset_eq_setD)
  have "mset (map f xs) = mset (map f ys)" using same by (metis mset_map)
  then have keys': "distinct (map f ys)" using keys mset_eq_imp_distinct_iff by blast
  have inj: "inj_on f (set (sort_key f xs) \<union> set (sort_key f ys))"
    using keys sets by (simp add: distinct_map)
  have "map f (sort_key f xs) = map f (sort_key f ys)"
  proof (rule sorted_distinct_set_unique)
    show "sorted (map f (sort_key f xs))" by (rule sorted_sort_key)
    show "sorted (map f (sort_key f ys))" by (rule sorted_sort_key)
    show "distinct (map f (sort_key f xs))" using keys by (simp add: distinct_map)
    show "distinct (map f (sort_key f ys))" using keys' by (simp add: distinct_map)
    show "set (map f (sort_key f xs)) = set (map f (sort_key f ys))" using sets by simp
  qed
  then show ?thesis using inj by (simp add: inj_on_map_eq_map)
qed

lemma list_entries_mset:
  assumes "mset cs = mset cs'" and "distinct (map child_name cs)"
  shows "list_entries rel q cs = list_entries rel q cs'"
proof -
  have "set cs = set cs'" using assms(1) by (rule mset_eq_setD)
  then have "list_all (\<lambda>c. child_stat c \<noteq> None) cs = list_all (\<lambda>c. child_stat c \<noteq> None) cs'"
    by (simp add: list_all_iff)
  moreover have "sort_key child_name cs = sort_key child_name cs'"
    using assms by (rule sort_key_mset_unique)
  ultimately show ?thesis by (simp add: list_entries_def)
qed

lemma sort_reverse_descending:
  fixes k :: "'a \<Rightarrow> 'k::linorder"
  shows "sorted_wrt (\<lambda>a b. k a \<ge> k b) (sort_reverse k xs)"
proof -
  have "sorted (map k (sort_key k (rev xs)))" by (rule sorted_sort_key)
  then have "sorted_wrt (\<lambda>a b. k a \<le> k b) (sort_key k (rev xs))"
    by (simp add: sorted_map)
  then show ?thesis by (simp add: sort_reverse_def sorted_wrt_rev)
qed

lemma mset_sort_reverse: "mset (sort_reverse k xs) = mset xs"
  by (simp add: sort_reverse_def)

lemma mset_sort_items: "mset (sort_items sort' items) = mset items"
  by (simp add: sort_items_def mset_sort_reverse)

lemma list_dir_order_free:
  fixes fs fs' :: filesystem
  assumes "realpath fs' = realpath fs" and "lookup fs' = lookup fs"
      and "\<forall>d. mset (iterdir fs' d) = mset (iterdir fs d)"
      and "\<forall>d. distinct (map child_name (iterdir fs d))"
  shows "list_dir fs' ROOT_DIRS root_index rel q = list_dir fs ROOT_DIRS root_index rel q"
proof -
  have same_path: "normalize_root_and_rel fs' ROOT_DIRS root_index rel
                     = normalize_root_and_rel fs ROOT_DIRS root_index rel"
    by (simp only: normalize_root_and_rel_def assms(1))
  have same_entries: "list_entries rel q (iterdir fs' d) = list_entries rel q (iterdir fs d)" for d
  proof (rule sym, rule list_entries_mset)
    show "mset (iterdir fs d) = mset (iterdir fs' d)" using assms(3) by simp
    show "distinct (map child_name (iterdir fs d))" using assms(4) by simp
  qed
  show ?thesis
    by (simp only: list_dir_def same_path exists_path_def is_file_def assms(2) same_entries)
qed

section \<open>The example files, evaluated\<close>

lemma thousand_resolves:
  "normalize_root_and_rel thousand_fs [''/srv''] 0 ''film.mp4'' = Inr ''/srv/film.mp4''"
  by (simp add: normalize_root_and_rel_def py_index_def path_join_def thousand_fs_def
      resolve_nolinks_def startswith_def)

lemma thousand_lookup:
  "lookup thousand_fs ''/srv/film.mp4'' = Some (RegularFile thousand_bytes)"
  by (simp add: thousand_fs_def)

lemma py_int_1000: "py_int ''1000'' = Some 1000"
  by (simp add: py_int_def strip_def is_space_def digits_value_def is_digit_def digit_val_def
      int_max_str_digits_def)

lemma py_int_1999: "py_int ''1999'' = Some 1999"
  by (simp add: py_int_def strip_def is_space_def digits_value_def is_digit_def digit_val_def
      int_max_str_digits_def)

lemma py_int_0: "py_int ''0'' = Some 0"
  by (simp add: py_int_def strip_def is_space_def digits_value_def is_digit_def digit_val_def
      int_max_str_digits_def)

lemma parse_1000_1999: "parse_range ''bytes=1000-1999'' 1000 = (1000, 1999)"
  by (simp add: parse_range_def py_int_1000 py_int_1999)

lemma parse_0_1999: "parse_range ''bytes=0-1999'' 1000 = (0, 1999)"
  by (simp add: parse_range_def py_int_0 py_int_1999)

lemma py_int_500: "py_int ''500'' = Some 500"
  by (simp add: py_int_def strip_def is_space_def digits_value_def is_digit_def digit_val_def
      int_max_str_digits_def)

lemma py_int_100: "py_int ''100'' = Some 100"
  by (simp add: py_int_def strip_def is_space_def digits_value_def is_digit_def digit_val_def
      int_max_str_digits_def)

lemma str_int_values:
  "str_int 500 = ''500''" "str_int 100 = ''100''" "str_int 1000 = ''1000''"
  "str_int (- 399) = ''-399''" "str_int 0 = ''0''" "str_int 1999 = ''1999''"
  "str_int 2000 = ''2000''"
  by (simp_all add: str_int_def str_nat.simps digit_char_def)

lemma range_headers_values:
  "range_headers 0 1999 1000
     = Some [(''Content-Range'', ''bytes 0-1999/1000''), (''Accept-Ranges'', ''bytes''),
             (''Content-Length'', ''2000'')]"
  "range_headers 500 100 1000
     = Some [(''Content-Range'', ''bytes 500-100/1000''), (''Accept-Ranges'', ''bytes''),
             (''Content-Length'', ''-399'')]"
  by (simp_all add: range_headers_small str_int_values)

lemma thousand_single_chunk:
  "read_loop thousand_bytes 0 1000 default_chunk_size = Inr [thousand_bytes]"
  by (simp add: read_loop.simps file_read_def default_chunk_size_def thousand_bytes_def)

lemma resolve_sibling:
  "resolve_nolinks ''/root'' = Some ''/root''"
  "resolve_nolinks ''/root/../root2'' = Some ''/root2''"
  "resolve_nolinks ''/root/a/b/../../../root2/secret.jpg'' = Some ''/root2/secret.jpg''"
  by (simp_all add: resolve_nolinks_def)

lemma resolve_two_roots:
  "resolve_nolinks ''/srv/films'' = Some ''/srv/films''"
  "resolve_nolinks ''/srv/films/'' = Some ''/srv/films''"
  "resolve_nolinks ''/srv/photos'' = Some ''/srv/photos''"
  "resolve_nolinks ''/srv/photos/a.jpg'' = Some ''/srv/photos/a.jpg''"
  by (simp_all add: resolve_nolinks_def)

lemma film_key: "cache_key 0 ''film.mp4'' = Some ''0:film.mp4''"
  by (simp add: cache_key_def py_str_small str_int_values)

lemma film_thumb:
  "api_thumb film_env thousand_fs [''/srv''] empty_cache 0 ''film.mp4''
     = (Inr [255, 216, 255], empty_cache(''0:film.mp4'' \<mapsto> [255, 216, 255]),
        [Sniff ''/srv/film.mp4'', Subprocess ''/srv/film.mp4'', DecodeFrame [1, 2, 3]])"
  by (simp add: api_thumb_def film_key empty_cache_def thousand_resolves exists_path_def
      is_file_def thousand_lookup make_thumb_def film_env_def startswith_def Let_def)


lemma srv_resolves: "normalize_root_and_rel (album_fs cs) [''/srv''] 0 '''' = Inr ''/srv''"
proof -
  have "resolve_nolinks ''/srv/'' = Some ''/srv''" "resolve_nolinks ''/srv'' = Some ''/srv''"
    by (simp_all add: resolve_nolinks_def)
  then show ?thesis
    by (simp add: normalize_root_and_rel_def py_index_def path_join_def album_fs_def
        startswith_def)
qed

lemma album_sorted: "sort_key child_name album = [album ! 1, album ! 0, album ! 3, album ! 2]"
  by (simp add: album_def less_eq_char_def)

lemma album_listed:
  "list_dir (album_fs album) [''/srv''] 0 '''' None
     = Inr [e_alpha_jpg, e_beta_jpg, e_alpha_png, e_clips]"
  by (simp add: list_dir_def srv_resolves exists_path_def is_file_def list_entries_def
        album_sorted keeps_def)
     (simp add: album_fs_def album_def make_entry_def os_path_join_def lstrip_slash_def
        e_alpha_jpg_def e_alpha_png_def e_beta_jpg_def e_clips_def)

lemma lower_names:
  "lower (name e_alpha_jpg) = ''alpha.jpg''" "lower (name e_alpha_png) = ''alpha.png''"
  "lower (name e_beta_jpg) = ''beta.jpg''" "lower (name e_clips) = ''clips''"
  by code_simp+

lemma album_by_name:
  "sort_items ''name'' [e_alpha_jpg, e_beta_jpg, e_alpha_png, e_clips]
     = [e_alpha_jpg, e_alpha_png, e_beta_jpg, e_clips]"
  by (simp add: sort_items_def lower_names less_eq_char_def)

lemma album_by_date:
  "sort_items ''date'' [e_alpha_jpg, e_beta_jpg, e_alpha_png, e_clips]
     = [e_alpha_jpg, e_alpha_png, e_beta_jpg, e_clips]"
  by (simp add: sort_items_def sort_reverse_def e_alpha_jpg_def e_alpha_png_def e_beta_jpg_def
      e_clips_def)

lemma album_by_size:
  "sort_items ''size'' [e_alpha_jpg, e_beta_jpg, e_alpha_png, e_clips]
     = [e_clips, e_beta_jpg, e_alpha_png, e_alpha_jpg]"
  by (simp add: sort_items_def sort_reverse_def e_alpha_jpg_def e_alpha_png_def e_beta_jpg_def
      e_clips_def)

section \<open>Claims on path resolution\<close>

text \<open>
  Claim C1, at inputs where the code departs from it. The containment test is
  \<^verbatim>\<open>str(candidate).startswith(str(root.resolve()))\<close>: with the root \<^verbatim>\<open>/root\<close>, the
  relative path \<^verbatim>\<open>../root2\<close> resolves to the sibling \<^verbatim>\<open>/root2\<close>, outside the
  directory of the root, and is returned, not refused with \<^verbatim>\<open>path outside root\<close>; so
  is a file of the sibling that is reached through three nested \<^verbatim>\<open>..\<close>.
\<close>

theorem normalize_root_and_rel_sibling_escape:
  "normalize_root_and_rel sibling_fs [''/root''] 0 ''../root2'' = Inr ''/root2''
   \<and> normalize_root_and_rel sibling_fs [''/root''] 0 ''a/b/../../../root2/secret.jpg''
       = Inr ''/root2/secret.jpg''"
  by (simp add: normalize_root_and_rel_def py_index_def path_join_def sibling_fs_def
      resolve_sibling startswith_def)

text \<open>
  Claim C4, at inputs where the code departs from it. \<^verbatim>\<open>ROOT_DIRS[root_index]\<close> raises
  only for an index that is not in \<open>[-n, n)\<close>, where \<open>n\<close> is the number of roots: with two
  roots the index \<open>-1\<close> is the second root and \<open>-2\<close> the first, and neither is refused
  with \<^verbatim>\<open>invalid root index\<close>.
\<close>

theorem normalize_root_and_rel_negative_index:
  "normalize_root_and_rel sibling_fs two_roots (- 1) '''' = Inr ''/srv/films''
   \<and> normalize_root_and_rel sibling_fs two_roots (- 2) ''a.jpg'' = Inr ''/srv/photos/a.jpg''"
  by (simp add: normalize_root_and_rel_def py_index_def path_join_def sibling_fs_def
      two_roots_def resolve_two_roots startswith_def)

section \<open>Claims on range streaming\<close>

text \<open>
  Claim C5. For a regular file of size \<open>S\<close>, every \<open>start\<close> and \<open>end\<close> with
  \<open>0 \<le> start \<le> end < S\<close> and every positive chunk size (the default \<open>2 ^ 20\<close> is one),
  \<^verbatim>\<open>iter_file_range\<close> runs to its end without an exception, its chunks concatenate to
  exactly the bytes \<open>start\<close> to \<open>end\<close> of the file, \<open>end - start + 1\<close> of them, although the
  file may hold more bytes after \<open>end\<close>, and no chunk is empty or longer than the chunk
  size.
\<close>

theorem iter_file_range_span:
  assumes regular: "lookup fs path = Some (RegularFile data)"
      and start: "0 \<le> start"
      and order: "start \<le> end'"
      and inside: "end' < int (length data)"
      and chunk: "0 < chunk_size"
  shows "\<exists>chunks. iter_file_range fs path start (Some end') chunk_size = Inr chunks
           \<and> concat chunks = take (nat (end' - start + 1)) (drop (nat start) data)
           \<and> int (length (concat chunks)) = end' - start + 1
           \<and> (\<forall>c \<in> set chunks. c \<noteq> [] \<and> int (length c) \<le> chunk_size)"
proof -
  obtain chunks where
    run: "read_loop data (nat start) (end' - start + 1) chunk_size = Inr chunks"
    and span: "concat chunks = take (nat (end' - start + 1)) (drop (nat start) data)"
    and bound: "\<forall>c \<in> set chunks. c \<noteq> [] \<and> int (length c) \<le> chunk_size"
    using read_loop_positive [OF chunk, of data "nat start" "end' - start + 1"] by blast
  have iter: "iter_file_range fs path start (Some end') chunk_size = Inr chunks"
    using regular start inside run by (simp add: iter_file_range_def)
  have count: "int (length (concat chunks)) = end' - start + 1"
    using start order inside by (simp add: span)
  show ?thesis using iter span count bound by blast
qed

theorem iter_file_range_span_witness:
  "lookup example_fs ''/srv/a.mp4'' = Some (RegularFile example_bytes)
   \<and> (0::int) \<le> 2 \<and> (2::int) \<le> 8 \<and> 8 < int (length example_bytes) \<and> (0::int) < 3
   \<and> (\<exists>chunks. iter_file_range example_fs ''/srv/a.mp4'' 2 (Some 8) 3 = Inr chunks
          \<and> concat chunks = [12, 13, 14, 15, 16, 17, 18]
          \<and> int (length (concat chunks)) = 7
          \<and> (\<forall>c \<in> set chunks. c \<noteq> [] \<and> int (length c) \<le> 3))"
proof -
  have regular: "lookup example_fs ''/srv/a.mp4'' = Some (RegularFile example_bytes)"
    by (simp add: example_fs_def)
  have inside: "8 < int (length example_bytes)"
    by (simp add: example_bytes_def)
  have span: "take 7 (drop 2 example_bytes) = [12, 13, 14, 15, 16, 17, 18]"
    by (simp add: example_bytes_def)
  show ?thesis
    using iter_file_range_span [OF regular _ _ inside, of 2 3] regular inside
    by (simp add: span)
qed

text \<open>
  Claim C6. For an existing regular file of size \<open>S\<close> and a \<^verbatim>\<open>Range\<close> header that is
  present and whose start, as \<^verbatim>\<open>media\<close> computes it, is at least \<open>S\<close>, the response
  has status 416, no headers of the handler's and an empty body. (An empty header is no
  header to \<^verbatim>\<open>if range_header\<close>.) With \<open>S = 1000\<close> and \<^verbatim>\<open>bytes=1000-1999\<close> this is
  the scenario of the specification.
\<close>

theorem media_start_beyond_size:
  assumes resolved: "normalize_root_and_rel fs ROOT_DIRS root_index full_path = Inr p"
      and regular: "lookup fs p = Some (RegularFile data)"
      and present: "range_header \<noteq> []"
      and parsed: "parse_range range_header (int (length data)) = (start, end')"
      and beyond: "start \<ge> int (length data)"
  shows "media fs guess_type ROOT_DIRS root_index full_path (Some range_header)
           = Inr \<lparr>status_code = 416, headers = [], media_type = None, body = Content []\<rparr>"
  using assms by (simp add: media_def Let_def)

theorem media_start_beyond_size_witness:
  "normalize_root_and_rel thousand_fs [''/srv''] 0 ''film.mp4'' = Inr ''/srv/film.mp4''
   \<and> lookup thousand_fs ''/srv/film.mp4'' = Some (RegularFile thousand_bytes)
   \<and> ''bytes=1000-1999'' \<noteq> []
   \<and> parse_range ''bytes=1000-1999'' (int (length thousand_bytes)) = (1000, 1999)
   \<and> (1000::int) \<ge> int (length thousand_bytes)
   \<and> media thousand_fs no_guess [''/srv''] 0 ''film.mp4'' (Some ''bytes=1000-1999'')
        = Inr \<lparr>status_code = 416, headers = [], media_type = None, body = Content []\<rparr>"
proof -
  have parsed: "parse_range ''bytes=1000-1999'' (int (length thousand_bytes)) = (1000, 1999)"
    by (simp add: thousand_bytes_def parse_1000_1999)
  have beyond: "(1000::int) \<ge> int (length thousand_bytes)"
    by (simp add: thousand_bytes_def)
  have present: "''bytes=1000-1999'' \<noteq> []" by simp
  show ?thesis
    using media_start_beyond_size
            [OF thousand_resolves thousand_lookup present parsed beyond, of no_guess]
      thousand_resolves thousand_lookup parsed beyond
    by simp
qed

text \<open>
  Claim C10. For an existing regular file of size \<open>S\<close> and a header that gives
  \<open>start < S\<close> and \<open>end < start\<close>, the response has status 206, its
  \<^verbatim>\<open>Content-Length\<close> is the decimal of \<open>end - start + 1\<close>, which is zero or negative, its
  \<^verbatim>\<open>Content-Range\<close> shows the inverted range as it was sent, and the body yields no
  chunk. The start of a header is never negative, so that \<^verbatim>\<open>seek\<close> does not fail. The
  size of a file is an offset of the operating system, below \<open>2 ^ 63\<close>, so that none of
  the four numbers is too long for \<^verbatim>\<open>str\<close>.
\<close>

theorem media_inverted_range:
  assumes resolved: "normalize_root_and_rel fs ROOT_DIRS root_index full_path = Inr p"
      and regular: "lookup fs p = Some (RegularFile data)"
      and offset: "int (length data) < 2 ^ 63"
      and present: "range_header \<noteq> []"
      and parsed: "parse_range range_header (int (length data)) = (start, end')"
      and inside: "start < int (length data)"
      and inverted: "end' < start"
  shows "media fs guess_type ROOT_DIRS root_index full_path (Some range_header)
           = Inr \<lparr>status_code = 206,
                  headers =
                    [(''Content-Range'',
                        ''bytes '' @ str_int start @ ''-'' @ str_int end' @ ''/''
                          @ str_int (int (length data))),
                     (''Accept-Ranges'', ''bytes''),
                     (''Content-Length'', str_int (end' - start + 1))],
                  media_type = Some (mime_or_default (guess_type p)),
                  body = Stream []\<rparr>
         \<and> end' - start + 1 \<le> 0"
proof -
  have nonneg: "0 \<le> start" using parsed by (rule parse_range_start_nonneg)
  have lower: "- 1 \<le> end'" using parsed by (rule parse_range_end_lower) simp
  have formatted:
    "range_headers start end' (int (length data))
       = Some [(''Content-Range'',
                  ''bytes '' @ str_int start @ ''-'' @ str_int end' @ ''/''
                    @ str_int (int (length data))),
               (''Accept-Ranges'', ''bytes''),
               (''Content-Length'', str_int (end' - start + 1))]"
    using nonneg lower offset inside inverted by (intro range_headers_small) simp_all
  have iter: "iter_file_range fs p start (Some end') default_chunk_size = Inr []"
    using regular nonneg inside inverted
    by (simp add: iter_file_range_def read_loop.simps)
  show ?thesis
    using resolved regular present parsed inside inverted formatted iter
    by (simp add: media_def Let_def)
qed

theorem media_inverted_range_witness:
  "normalize_root_and_rel thousand_fs [''/srv''] 0 ''film.mp4'' = Inr ''/srv/film.mp4''
   \<and> lookup thousand_fs ''/srv/film.mp4'' = Some (RegularFile thousand_bytes)
   \<and> int (length thousand_bytes) < 2 ^ 63
   \<and> ''bytes=500-100'' \<noteq> []
   \<and> parse_range ''bytes=500-100'' (int (length thousand_bytes)) = (500, 100)
   \<and> (500::int) < int (length thousand_bytes)
   \<and> (100::int) < 500
   \<and> media thousand_fs no_guess [''/srv''] 0 ''film.mp4'' (Some ''bytes=500-100'')
        = Inr \<lparr>status_code = 206,
               headers =
                 [(''Content-Range'', ''bytes 500-100/1000''),
                  (''Accept-Ranges'', ''bytes''),
                  (''Content-Length'', ''-399'')],
               media_type = Some ''application/octet-stream'',
               body = Stream []\<rparr>"
proof -
  have parsed: "parse_range ''bytes=500-100'' (int (length thousand_bytes)) = (500, 100)"
    by (simp add: thousand_bytes_def parse_range_def py_int_500 py_int_100)
  have inside: "(500::int) < int (length thousand_bytes)"
    by (simp add: thousand_bytes_def)
  have offset: "int (length thousand_bytes) < 2 ^ 63"
    by (simp add: thousand_bytes_def)
  have present: "''bytes=500-100'' \<noteq> []" by simp
  have inverted: "(100::int) < 500" by simp
  have size: "int (length thousand_bytes) = 1000"
    by (simp add: thousand_bytes_def)
  show ?thesis
    using media_inverted_range
            [OF thousand_resolves thousand_lookup offset present parsed inside inverted,
             of no_guess]
      thousand_resolves thousand_lookup parsed inside offset
    by (simp add: size str_int_values mime_or_default_def no_guess_def)
qed

text \<open>
  Claim C2, at the input where the code departs from it. For the file of 1000 bytes and
  \<^verbatim>\<open>Range: bytes=0-1999\<close> the headers of \<^verbatim>\<open>media\<close> carry the end as it was sent:
  \<^verbatim>\<open>Content-Range: bytes 0-1999/1000\<close> and \<^verbatim>\<open>Content-Length: 2000\<close>, while the body,
  clamped by \<^verbatim>\<open>iter_file_range\<close>, is the 1000 bytes of the file. The claim asks for
  \<^verbatim>\<open>bytes 0-999/1000\<close> and \<^verbatim>\<open>1000\<close>.
\<close>

theorem media_overshoot_headers:
  "media thousand_fs no_guess [''/srv''] 0 ''film.mp4'' (Some ''bytes=0-1999'')
     = Inr \<lparr>status_code = 206,
            headers =
              [(''Content-Range'', ''bytes 0-1999/1000''),
               (''Accept-Ranges'', ''bytes''),
               (''Content-Length'', ''2000'')],
            media_type = Some ''application/octet-stream'',
            body = Stream [thousand_bytes]\<rparr>
   \<and> length thousand_bytes = 1000"
proof -
  have size: "int (length thousand_bytes) = 1000"
    by (simp add: thousand_bytes_def)
  have iter: "iter_file_range thousand_fs ''/srv/film.mp4'' 0 (Some 1999) default_chunk_size
                = Inr [thousand_bytes]"
    using thousand_lookup by (simp add: iter_file_range_def size thousand_single_chunk)
  have "media thousand_fs no_guess [''/srv''] 0 ''film.mp4'' (Some ''bytes=0-1999'')
       = Inr \<lparr>status_code = 206,
              headers =
                [(''Content-Range'', ''bytes 0-1999/1000''),
                 (''Accept-Ranges'', ''bytes''),
                 (''Content-Length'', ''2000'')],
              media_type = Some ''application/octet-stream'',
              body = Stream [thousand_bytes]\<rparr>"
    using thousand_resolves thousand_lookup
    by (simp add: media_def Let_def size parse_0_1999 iter range_headers_values
        mime_or_default_def no_guess_def)
  then show ?thesis by (simp add: thousand_bytes_def)
qed

section \<open>Claims on thumbnails\<close>

text \<open>
  Claim C7. When a call of \<^verbatim>\<open>api_thumb\<close> returns bytes, these bytes are in the cache
  under the key of the request when the call returns, and a second call for the same
  key returns the same bytes from the cache and does no work: no sniffing, no decoding,
  no subprocess. The second call does not look at the file system, the roots or the
  collaborators at all, so that it may be given any.
\<close>

theorem api_thumb_second_call_cached:
  assumes first: "api_thumb env fs ROOT_DIRS thumb_cache root_index path = (Inr data, cache', work)"
  shows "\<exists>key. cache_key root_index path = Some key
           \<and> cache' key = Some data
           \<and> api_thumb env2 fs2 ROOT_DIRS2 cache' root_index path = (Inr data, cache', [])"
proof (cases "cache_key root_index path")
  case None
  then show ?thesis using first by (simp add: api_thumb_def)
next
  case (Some key)
  have stored: "cache' key = Some data"
  proof (cases "thumb_cache key")
    case hit: (Some cached)
    then show ?thesis using first Some by (auto simp: api_thumb_def)
  next
    case None
    then show ?thesis
      using first Some
      by (auto simp: api_thumb_def Let_def split: sum.splits if_splits prod.splits)
  qed
  then have "api_thumb env2 fs2 ROOT_DIRS2 cache' root_index path = (Inr data, cache', [])"
    using Some by (simp add: api_thumb_def)
  then show ?thesis using Some stored by simp
qed

theorem api_thumb_second_call_cached_witness:
  "api_thumb film_env thousand_fs [''/srv''] empty_cache 0 ''film.mp4''
     = (Inr [255, 216, 255], empty_cache(''0:film.mp4'' \<mapsto> [255, 216, 255]),
        [Sniff ''/srv/film.mp4'', Subprocess ''/srv/film.mp4'', DecodeFrame [1, 2, 3]])
   \<and> cache_key 0 ''film.mp4'' = Some ''0:film.mp4''
   \<and> (empty_cache(''0:film.mp4'' \<mapsto> [255, 216, 255])) ''0:film.mp4''
         = Some [255, 216, 255]
   \<and> api_thumb film_env thousand_fs [''/srv'']
         (empty_cache(''0:film.mp4'' \<mapsto> [255, 216, 255])) 0 ''film.mp4''
       = (Inr [255, 216, 255], empty_cache(''0:film.mp4'' \<mapsto> [255, 216, 255]), [])"
  using api_thumb_second_call_cached [OF film_thumb, of film_env thousand_fs "[''/srv'']"]
    film_thumb film_key
  by simp




section \<open>Claims on directory listing\<close>

text \<open>
  Claim C8. When \<^verbatim>\<open>list_dir\<close> returns a list, \<^verbatim>\<open>api_list\<close> returns the same entries
  in an order that the sort key fixes: without a sort key the answer is that of
  \<^verbatim>\<open>name\<close>; with \<^verbatim>\<open>name\<close> the names in lower case ascend, so that the order does not
  look at the case; with \<^verbatim>\<open>date\<close> the modification times descend; with \<^verbatim>\<open>size\<close>
  the sizes descend. The answer is a function of the entries and the sort key alone: the
  order in which the operating system enumerates the children of a directory, whose
  names are distinct, does not show in it, for any sort key.
\<close>

theorem api_list_ordering:
  assumes listed: "list_dir fs ROOT_DIRS root_index path q = Inr items"
  shows "api_list fs ROOT_DIRS root_index path q None
           = api_list fs ROOT_DIRS root_index path q (Some ''name'')
       \<and> (\<exists>out. api_list fs ROOT_DIRS root_index path q (Some ''name'') = Inr out
              \<and> mset out = mset items
              \<and> sorted (map (\<lambda>x. lower (name x)) out))
       \<and> (\<exists>out. api_list fs ROOT_DIRS root_index path q (Some ''date'') = Inr out
              \<and> mset out = mset items
              \<and> sorted_wrt (\<lambda>a b. mtime a \<ge> mtime b) out)
       \<and> (\<exists>out. api_list fs ROOT_DIRS root_index path q (Some ''size'') = Inr out
              \<and> mset out = mset items
              \<and> sorted_wrt (\<lambda>a b. size_bytes a \<ge> size_bytes b) out)
       \<and> (\<forall>fs' :: filesystem. realpath fs' = realpath fs \<and> lookup fs' = lookup fs
              \<and> (\<forall>d. mset (iterdir fs' d) = mset (iterdir fs d))
              \<and> (\<forall>d. distinct (map child_name (iterdir fs d)))
            \<longrightarrow> api_list fs' ROOT_DIRS root_index path q sort_param
                  = api_list fs ROOT_DIRS root_index path q sort_param)"
proof (intro conjI allI impI)
  show "api_list fs ROOT_DIRS root_index path q None
          = api_list fs ROOT_DIRS root_index path q (Some ''name'')"
    by (simp add: api_list_def)
next
  have "api_list fs ROOT_DIRS root_index path q (Some ''name'')
          = Inr (sort_key (\<lambda>x. lower (name x)) items)"
    using listed by (simp add: api_list_def sort_items_def)
  moreover have "sorted (map (\<lambda>x. lower (name x)) (sort_key (\<lambda>x. lower (name x)) items))"
    by (rule sorted_sort_key)
  ultimately show "\<exists>out. api_list fs ROOT_DIRS root_index path q (Some ''name'') = Inr out
              \<and> mset out = mset items
              \<and> sorted (map (\<lambda>x. lower (name x)) out)"
    by simp
next
  have "api_list fs ROOT_DIRS root_index path q (Some ''date'') = Inr (sort_reverse mtime items)"
    using listed by (simp add: api_list_def sort_items_def)
  then show "\<exists>out. api_list fs ROOT_DIRS root_index path q (Some ''date'') = Inr out
              \<and> mset out = mset items
              \<and> sorted_wrt (\<lambda>a b. mtime a \<ge> mtime b) out"
    using sort_reverse_descending [of mtime items] by (simp add: mset_sort_reverse)
next
  have "api_list fs ROOT_DIRS root_index path q (Some ''size'')
          = Inr (sort_reverse size_bytes items)"
    using listed by (simp add: api_list_def sort_items_def)
  then show "\<exists>out. api_list fs ROOT_DIRS root_index path q (Some ''size'') = Inr out
              \<and> mset out = mset items
              \<and> sorted_wrt (\<lambda>a b. size_bytes a \<ge> size_bytes b) out"
    using sort_reverse_descending [of size_bytes items] by (simp add: mset_sort_reverse)
next
  fix fs' :: filesystem
  assume same: "realpath fs' = realpath fs \<and> lookup fs' = lookup fs
              \<and> (\<forall>d. mset (iterdir fs' d) = mset (iterdir fs d))
              \<and> (\<forall>d. distinct (map child_name (iterdir fs d)))"
  then have "list_dir fs' ROOT_DIRS root_index path q = list_dir fs ROOT_DIRS root_index path q"
    by (intro list_dir_order_free) simp_all
  then show "api_list fs' ROOT_DIRS root_index path q sort_param
               = api_list fs ROOT_DIRS root_index path q sort_param"
    by (simp add: api_list_def)
qed

theorem api_list_ordering_witness:
  "list_dir (album_fs album) [''/srv''] 0 '''' None
     = Inr [e_alpha_jpg, e_beta_jpg, e_alpha_png, e_clips]
   \<and> api_list (album_fs album) [''/srv''] 0 '''' None None
       = Inr [e_alpha_jpg, e_alpha_png, e_beta_jpg, e_clips]
   \<and> api_list (album_fs album) [''/srv''] 0 '''' None (Some ''name'')
       = Inr [e_alpha_jpg, e_alpha_png, e_beta_jpg, e_clips]
   \<and> api_list (album_fs album) [''/srv''] 0 '''' None (Some ''date'')
       = Inr [e_alpha_jpg, e_alpha_png, e_beta_jpg, e_clips]
   \<and> api_list (album_fs album) [''/srv''] 0 '''' None (Some ''size'')
       = Inr [e_clips, e_beta_jpg, e_alpha_png, e_alpha_jpg]
   \<and> api_list (album_fs (rev album)) [''/srv''] 0 '''' None (Some ''size'')
       = Inr [e_clips, e_beta_jpg, e_alpha_png, e_alpha_jpg]"
proof -
  note ordering =
    api_list_ordering [OF album_listed, where sort_param = "Some ''size''"]
  have default: "api_list (album_fs album) [''/srv''] 0 '''' None None
                   = api_list (album_fs album) [''/srv''] 0 '''' None (Some ''name'')"
    using ordering by blast
  have "realpath (album_fs (rev album)) = realpath (album_fs album)
        \<and> lookup (album_fs (rev album)) = lookup (album_fs album)
        \<and> (\<forall>d. mset (iterdir (album_fs (rev album)) d) = mset (iterdir (album_fs album) d))
        \<and> (\<forall>d. distinct (map child_name (iterdir (album_fs album) d)))"
    by (simp add: album_fs_def album_def)
  then have reversed: "api_list (album_fs (rev album)) [''/srv''] 0 '''' None (Some ''size'')
                         = api_list (album_fs album) [''/srv''] 0 '''' None (Some ''size'')"
    using ordering by blast
  show ?thesis
    using default reversed
    by (simp add: api_list_def album_listed album_by_name album_by_date album_by_size)
qed

end
